theory Spec2Isabelle
  imports Complex_Main "HOL-Library.Multiset"
begin

section \<open>CivicTrack: the issue store, moderation counters and admin queries\<close>

text \<open>
  The development embeds the storage layer (class \<open>DatabaseStorage\<close>), the request
  handlers that call it and the table declarations of \<open>shared/schema.ts\<close>.

  A table is the list of its rows in insertion order.  A nullable column is an
  \<open>option\<close> (\<open>None\<close> is SQL \<open>NULL\<close>); a comparison with \<open>NULL\<close> in a
  \<open>WHERE\<close> clause is not true, so such a row is not selected.  Values that the
  database generates (\<open>gen_random_uuid()\<close>, \<open>now()\<close>, JavaScript's \<open>new Date()\<close>)
  are arguments of the operation that consumes them.  A statement that PostgreSQL
  rejects (primary key, foreign key, column width, integer range) yields a
  \<open>store_error\<close> and leaves the table untouched; statements are not wrapped in a
  transaction, so the effects of earlier statements of the same method remain.
\<close>

subsection \<open>Rows\<close>

type_synonym timestamp = int

text \<open>A property of an insert object: left out (\<open>undefined\<close>), \<open>null\<close>, or a value.\<close>

datatype 'a field = Absent | Null | Given 'a

datatype store_error =
    UniqueViolation
  | ForeignKeyViolation
  | StringTooLong
  | NumericOutOfRange
  | NotNullViolation
  | InvalidRowCount

record user =
  id_user :: string
  email :: "string option"
  firstName :: "string option"
  lastName :: "string option"
  profileImageUrl :: "string option"
  isAdmin :: "bool option"
  isBanned :: "bool option"
  createdAt_user :: "timestamp option"
  updatedAt_user :: "timestamp option"

record issue =
  id_issue :: string
  title :: string
  description :: string
  category :: string
  status :: "string option"
  latitude :: real
  longitude :: real
  address :: "string option"
  photos :: "string list option"
  reporterId :: "string option"
  isAnonymous :: "bool option"
  isHidden :: "bool option"
  flagCount :: "int option"
  reportCount :: "int option"
  createdAt :: "timestamp option"
  updatedAt :: "timestamp option"

record issueStatusLog =
  id_log :: string
  issueId_log :: string
  oldStatus :: "string option"
  newStatus :: string
  changedBy :: "string option"
  notes_log :: "string option"
  createdAt_log :: "timestamp option"

record issueFlag =
  id_flag :: string
  issueId_flag :: string
  flaggerId :: string
  reason :: "string option"
  createdAt_flag :: "timestamp option"

record issueVote =
  id_vote :: string
  issueId_vote :: string
  voterId :: string
  createdAt_vote :: "timestamp option"

record db =
  users :: "user list"
  issues :: "issue list"
  issueStatusLogs :: "issueStatusLog list"
  issueFlags :: "issueFlag list"
  issueVotes :: "issueVote list"

subsection \<open>Insert objects\<close>

text \<open>
  \<open>InsertIssue\<close> is the insert schema of \<open>issues\<close> without \<open>id\<close>, \<open>createdAt\<close>,
  \<open>updatedAt\<close>, \<open>flagCount\<close>, \<open>reportCount\<close> and \<open>isHidden\<close>; \<open>status\<close> is not in
  the omitted set, so it stays an optional property of the object.
\<close>

record InsertIssue =
  title_ins :: string
  description_ins :: string
  category_ins :: string
  status_ins :: "string field"
  latitude_ins :: real
  longitude_ins :: real
  address_ins :: "string field"
  photos_ins :: "string list field"
  reporterId_ins :: "string field"
  isAnonymous_ins :: "bool field"

record InsertIssueFlag =
  issueId_insflag :: string
  flaggerId_insflag :: string
  reason_insflag :: "string field"

record InsertIssueVote =
  issueId_insvote :: string
  voterId_insvote :: string

record InsertIssueStatusLog =
  issueId_inslog :: string
  oldStatus_inslog :: "string field"
  newStatus_inslog :: string
  changedBy_inslog :: "string field"
  notes_inslog :: "string field"


subsection \<open>Column semantics\<close>

text \<open>The stored value of a nullable column with default \<open>d\<close>.\<close>

fun column :: "'a option \<Rightarrow> 'a field \<Rightarrow> 'a option" where
  "column d Absent = d"
| "column d Null = None"
| "column d (Given v) = Some v"

text \<open>
  \<open>varchar(n)\<close>: a value of at most \<open>n\<close> characters is stored as it is.  A longer
  value is rejected, unless every character after the \<open>n\<close>-th is a blank; then it
  is cut to \<open>n\<close> characters.  (A \<open>string\<close> is a list of bytes, so the width is
  counted in bytes here.)
\<close>

definition varchar :: "nat \<Rightarrow> string \<Rightarrow> string option" where
  "varchar n s =
     (if length s \<le> n then Some s
      else if list_all (\<lambda>c. c = CHR '' '') (drop n s) then Some (take n s)
      else None)"

definition varchar_null :: "nat \<Rightarrow> string option \<Rightarrow> string option option" where
  "varchar_null n v = (case v of None \<Rightarrow> Some None | Some s \<Rightarrow> map_option Some (varchar n s))"

text \<open>A stored value is within the width of its column.\<close>

definition fits :: "nat \<Rightarrow> string option \<Rightarrow> bool" where
  "fits n v = (case v of None \<Rightarrow> True | Some s \<Rightarrow> length s \<le> n)"

text \<open>
  \<open>decimal(p, s)\<close>: the value is rounded to \<open>s\<close> fractional digits, half away from
  zero, and rejected when the rounded value needs more than \<open>p - s\<close> integer digits.
\<close>

definition pg_numeric :: "nat \<Rightarrow> nat \<Rightarrow> real \<Rightarrow> real option" where
  "pg_numeric p s x =
     (let r = sgn x * real_of_int \<lfloor>\<bar>x\<bar> * 10 ^ s + 1 / 2\<rfloor> / 10 ^ s
      in if \<bar>r\<bar> < 10 ^ (p - s) then Some r else None)"

text \<open>\<open>integer\<close> is 32 bits wide; a result outside the range is an error, not a wrap.\<close>

definition pg_int4 :: "int \<Rightarrow> bool" where
  "pg_int4 n = (- 2147483648 \<le> n \<and> n \<le> 2147483647)"


subsection \<open>Lookups and updates\<close>

definition getUser :: "string \<Rightarrow> db \<Rightarrow> user option" where
  "getUser uid d = find (\<lambda>u. id_user u = uid) (users d)"

definition getIssue :: "string \<Rightarrow> db \<Rightarrow> issue option" where
  "getIssue iid d = find (\<lambda>i. id_issue i = iid) (issues d)"

definition getUserFlaggedIssue :: "string \<Rightarrow> string \<Rightarrow> db \<Rightarrow> issueFlag option" where
  "getUserFlaggedIssue iid uid d =
     find (\<lambda>f. issueId_flag f = iid \<and> flaggerId f = uid) (issueFlags d)"

definition getUserVoteForIssue :: "string \<Rightarrow> string \<Rightarrow> db \<Rightarrow> issueVote option" where
  "getUserVoteForIssue iid uid d =
     find (\<lambda>v. issueId_vote v = iid \<and> voterId v = uid) (issueVotes d)"

text \<open>A foreign key on a nullable column is checked only when the value is not \<open>NULL\<close>.\<close>

definition references_user :: "string option \<Rightarrow> db \<Rightarrow> bool" where
  "references_user v d = (case v of None \<Rightarrow> True | Some uid \<Rightarrow> getUser uid d \<noteq> None)"

text \<open>\<open>UPDATE issues SET f WHERE wh\<close>.\<close>

definition update_issues :: "(issue \<Rightarrow> bool) \<Rightarrow> (issue \<Rightarrow> issue) \<Rightarrow> db \<Rightarrow> db" where
  "update_issues wh f d = d\<lparr>issues := map (\<lambda>i. if wh i then f i else i) (issues d)\<rparr>"


subsection \<open>Ordering\<close>

text \<open>
  \<open>ORDER BY k DESC\<close>: larger keys first, \<open>NULL\<close> before every value.  SQL leaves the
  order of rows with equal keys open; here they keep their table order.
\<close>

fun desc_le :: "int option \<Rightarrow> int option \<Rightarrow> bool" where
  "desc_le None b = True"
| "desc_le (Some x) None = False"
| "desc_le (Some x) (Some y) = (y \<le> x)"

fun insert_desc :: "('a \<Rightarrow> int option) \<Rightarrow> 'a \<Rightarrow> 'a list \<Rightarrow> 'a list" where
  "insert_desc k x [] = [x]"
| "insert_desc k x (y # ys) =
     (if desc_le (k x) (k y) then x # y # ys else y # insert_desc k x ys)"

fun order_by_desc :: "('a \<Rightarrow> int option) \<Rightarrow> 'a list \<Rightarrow> 'a list" where
  "order_by_desc k [] = []"
| "order_by_desc k (x # xs) = insert_desc k x (order_by_desc k xs)"

subsection \<open>Issue operations\<close>

definition createIssue ::
  "InsertIssue \<Rightarrow> string \<Rightarrow> timestamp \<Rightarrow> db \<Rightarrow> (store_error + issue) \<times> db" where
  "createIssue ins newId now d =
     (case varchar 255 (title_ins ins) of
        None \<Rightarrow> (Inl StringTooLong, d)
      | Some t \<Rightarrow>
     (case varchar 50 (category_ins ins) of
        None \<Rightarrow> (Inl StringTooLong, d)
      | Some c \<Rightarrow>
     (case varchar_null 20 (column (Some ''reported'') (status_ins ins)) of
        None \<Rightarrow> (Inl StringTooLong, d)
      | Some st \<Rightarrow>
     (case pg_numeric 10 8 (latitude_ins ins) of
        None \<Rightarrow> (Inl NumericOutOfRange, d)
      | Some la \<Rightarrow>
     (case pg_numeric 11 8 (longitude_ins ins) of
        None \<Rightarrow> (Inl NumericOutOfRange, d)
      | Some lo \<Rightarrow>
          let rep = column None (reporterId_ins ins)
          in if getIssue newId d \<noteq> None then (Inl UniqueViolation, d)
             else if \<not> references_user rep d then (Inl ForeignKeyViolation, d)
             else
               let row = \<lparr>id_issue = newId,
                          title = t,
                          description = description_ins ins,
                          category = c,
                          status = st,
                          latitude = la,
                          longitude = lo,
                          address = column None (address_ins ins),
                          photos = column None (photos_ins ins),
                          reporterId = rep,
                          isAnonymous = column (Some False) (isAnonymous_ins ins),
                          isHidden = Some False,
                          flagCount = Some 0,
                          reportCount = Some 1,
                          createdAt = Some now,
                          updatedAt = Some now\<rparr>
               in (Inr row, d\<lparr>issues := issues d @ [row]\<rparr>))))))"

definition createStatusLog ::
  "InsertIssueStatusLog \<Rightarrow> string \<Rightarrow> timestamp \<Rightarrow> db \<Rightarrow> (store_error + unit) \<times> db" where
  "createStatusLog entry newId now d =
     (case varchar_null 20 (column None (oldStatus_inslog entry)) of
        None \<Rightarrow> (Inl StringTooLong, d)
      | Some old \<Rightarrow>
     (case varchar 20 (newStatus_inslog entry) of
        None \<Rightarrow> (Inl StringTooLong, d)
      | Some new \<Rightarrow>
          let actor = column None (changedBy_inslog entry)
          in if find (\<lambda>l. id_log l = newId) (issueStatusLogs d) \<noteq> None
             then (Inl UniqueViolation, d)
             else if getIssue (issueId_inslog entry) d = None \<or> \<not> references_user actor d
             then (Inl ForeignKeyViolation, d)
             else
               let row = \<lparr>id_log = newId,
                          issueId_log = issueId_inslog entry,
                          oldStatus = old,
                          newStatus = new,
                          changedBy = actor,
                          notes_log = column None (notes_inslog entry),
                          createdAt_log = Some now\<rparr>
               in (Inr (), d\<lparr>issueStatusLogs := issueStatusLogs d @ [row]\<rparr>)))"

definition getIssueStatusLogs :: "string \<Rightarrow> db \<Rightarrow> issueStatusLog list" where
  "getIssueStatusLogs iid d =
     order_by_desc createdAt_log (filter (\<lambda>l. issueId_log l = iid) (issueStatusLogs d))"

text \<open>
  \<open>updateIssueStatus\<close> reads the current row, updates \<open>status\<close> and \<open>updatedAt\<close>, and
  writes the log row from the row it read.  \<open>now\<close> is \<open>new Date()\<close>; \<open>logId\<close> and
  \<open>logNow\<close> are the generated id and creation time of the log row.
\<close>

definition nullable :: "'a option \<Rightarrow> 'a field" where
  "nullable v = (case v of None \<Rightarrow> Null | Some x \<Rightarrow> Given x)"

definition optional :: "'a option \<Rightarrow> 'a field" where
  "optional v = (case v of None \<Rightarrow> Absent | Some x \<Rightarrow> Given x)"


definition hideIssue :: "string \<Rightarrow> db \<Rightarrow> db" where
  "hideIssue iid d =
     update_issues (\<lambda>i. id_issue i = iid) (\<lambda>i. i\<lparr>isHidden := Some True\<rparr>) d"

text \<open>\<open>count + 1\<close> on a \<open>NULL\<close> counter is \<open>NULL\<close>; on the largest integer it is an error.\<close>

definition overflows :: "(issue \<Rightarrow> int option) \<Rightarrow> string \<Rightarrow> db \<Rightarrow> bool" where
  "overflows col iid d =
     list_ex (\<lambda>i. id_issue i = iid \<and>
                  (case col i of None \<Rightarrow> False | Some n \<Rightarrow> \<not> pg_int4 (n + 1))) (issues d)"

definition incrementIssueReportCount :: "string \<Rightarrow> db \<Rightarrow> (store_error + unit) \<times> db" where
  "incrementIssueReportCount iid d =
     (if overflows reportCount iid d then (Inl NumericOutOfRange, d)
      else (Inr (), update_issues (\<lambda>i. id_issue i = iid)
                      (\<lambda>i. i\<lparr>reportCount := map_option (\<lambda>n. n + 1) (reportCount i)\<rparr>) d))"

subsection \<open>Flagging and voting\<close>

definition at_least :: "int \<Rightarrow> int option \<Rightarrow> bool" where
  "at_least m v = (case v of None \<Rightarrow> False | Some n \<Rightarrow> m \<le> n)"

definition incrementIssueFlagCount :: "string \<Rightarrow> db \<Rightarrow> (store_error + unit) \<times> db" where
  "incrementIssueFlagCount iid d =
     (if overflows flagCount iid d then (Inl NumericOutOfRange, d)
      else
        let d1 = update_issues (\<lambda>i. id_issue i = iid)
                   (\<lambda>i. i\<lparr>flagCount := map_option (\<lambda>n. n + 1) (flagCount i)\<rparr>) d
        in (Inr (), update_issues (\<lambda>i. id_issue i = iid \<and> at_least 5 (flagCount i))
                      (\<lambda>i. i\<lparr>isHidden := Some True\<rparr>) d1))"

definition flagIssue ::
  "InsertIssueFlag \<Rightarrow> string \<Rightarrow> timestamp \<Rightarrow> db \<Rightarrow> (store_error + unit) \<times> db" where
  "flagIssue flag newId now d =
     (case varchar_null 100 (column None (reason_insflag flag)) of
        None \<Rightarrow> (Inl StringTooLong, d)
      | Some rs \<Rightarrow>
         if find (\<lambda>f. id_flag f = newId) (issueFlags d) \<noteq> None
         then (Inl UniqueViolation, d)
         else if getIssue (issueId_insflag flag) d = None
                 \<or> getUser (flaggerId_insflag flag) d = None
         then (Inl ForeignKeyViolation, d)
         else
           let row = \<lparr>id_flag = newId,
                      issueId_flag = issueId_insflag flag,
                      flaggerId = flaggerId_insflag flag,
                      reason = rs,
                      createdAt_flag = Some now\<rparr>
           in incrementIssueFlagCount (issueId_insflag flag)
                (d\<lparr>issueFlags := issueFlags d @ [row]\<rparr>))"

definition voteForIssue ::
  "InsertIssueVote \<Rightarrow> string \<Rightarrow> timestamp \<Rightarrow> db \<Rightarrow> (store_error + unit) \<times> db" where
  "voteForIssue vote newId now d =
     (if find (\<lambda>v. id_vote v = newId) (issueVotes d) \<noteq> None
      then (Inl UniqueViolation, d)
      else if getIssue (issueId_insvote vote) d = None
              \<or> getUser (voterId_insvote vote) d = None
      then (Inl ForeignKeyViolation, d)
      else
        let row = \<lparr>id_vote = newId,
                   issueId_vote = issueId_insvote vote,
                   voterId = voterId_insvote vote,
                   createdAt_vote = Some now\<rparr>
        in incrementIssueReportCount (issueId_insvote vote)
             (d\<lparr>issueVotes := issueVotes d @ [row]\<rparr>))"

subsection \<open>Proximity query\<close>


definition radians :: "real \<Rightarrow> real" where
  "radians x = x * pi / 180"

text \<open>
  The SQL expression \<open>distanceQuery\<close>.  The database evaluates it in double
  precision; the model evaluates it over the reals.
\<close>

definition distanceQuery :: "real \<Rightarrow> real \<Rightarrow> issue \<Rightarrow> real" where
  "distanceQuery lat lon i =
     6371 * arccos
       (cos (radians lat) * cos (radians (latitude i)) *
        cos (radians (longitude i) - radians lon) +
        sin (radians lat) * sin (radians (latitude i)))"




subsection \<open>Admin operations\<close>

definition getFlaggedIssues :: "db \<Rightarrow> issue list" where
  "getFlaggedIssues d =
     order_by_desc flagCount (filter (\<lambda>i. at_least 1 (flagCount i)) (issues d))"











subsection \<open>The mutating operations of the storage interface\<close>



subsection \<open>Request handlers\<close>

text \<open>
  A handler runs after the authentication middleware, which supplies \<open>userId\<close>.
  The insert schemas are generated from the table declarations by a library; the
  handlers take the generated validator as the argument \<open>valid\<close>.  A response is
  its status code with the message, the validation report or the issue it carries.
\<close>

datatype response =
    Message nat string
  | InvalidData nat
  | IssueJson nat issue

record issue_request =
  title_req :: "string option"
  description_req :: "string option"
  category_req :: "string option"
  status_req :: "string option"
  latitude_req :: "real option"
  longitude_req :: "real option"
  address_req :: "string option"
  isAnonymous_req :: "string option"
  files_req :: "string list"

text \<open>
  The object handed to \<open>insertIssueSchema.parse\<close>: the body's properties, with
  \<open>latitude\<close>, \<open>longitude\<close>, \<open>reporterId\<close>, \<open>isAnonymous\<close> and \<open>photos\<close> set by the
  handler.  A required property that is missing, or a coordinate that does not
  parse, fails the validation.
\<close>

definition insertIssueSchema_parse ::
  "(InsertIssue \<Rightarrow> bool) \<Rightarrow> string \<Rightarrow> issue_request \<Rightarrow> InsertIssue option" where
  "insertIssueSchema_parse valid userId r =
     (case (title_req r, description_req r, category_req r, latitude_req r, longitude_req r) of
        (Some t, Some ds, Some c, Some la, Some lo) \<Rightarrow>
          let issueData =
                \<lparr>title_ins = t,
                 description_ins = ds,
                 category_ins = c,
                 status_ins = optional (status_req r),
                 latitude_ins = la,
                 longitude_ins = lo,
                 address_ins = optional (address_req r),
                 photos_ins = Given (files_req r),
                 reporterId_ins =
                   (if isAnonymous_req r = Some ''true'' then Null else Given userId),
                 isAnonymous_ins = Given (isAnonymous_req r = Some ''true'')\<rparr>
          in if valid issueData then Some issueData else None
      | _ \<Rightarrow> None)"

definition post_issues ::
  "(InsertIssue \<Rightarrow> bool) \<Rightarrow> string \<Rightarrow> issue_request \<Rightarrow> string \<Rightarrow> timestamp \<Rightarrow> string
     \<Rightarrow> timestamp \<Rightarrow> db \<Rightarrow> response \<times> db" where
  "post_issues valid userId r newId now logId logNow d =
     (if (case getUser userId d of None \<Rightarrow> False | Some u \<Rightarrow> isBanned u = Some True)
      then (Message 403 ''Account is banned'', d)
      else case insertIssueSchema_parse valid userId r of
        None \<Rightarrow> (InvalidData 400, d)
      | Some issueData \<Rightarrow>
         (case createIssue issueData newId now d of
            (Inl e, d1) \<Rightarrow> (Message 500 ''Failed to create issue'', d1)
          | (Inr i, d1) \<Rightarrow>
             (case createStatusLog
                     \<lparr>issueId_inslog = id_issue i,
                      oldStatus_inslog = Null,
                      newStatus_inslog = ''reported'',
                      changedBy_inslog = Given userId,
                      notes_inslog = Given ''Issue reported''\<rparr> logId logNow d1 of
                (Inl e, d2) \<Rightarrow> (Message 500 ''Failed to create issue'', d2)
              | (Inr u, d2) \<Rightarrow> (IssueJson 201 i, d2))))"

definition post_flag ::
  "(InsertIssueFlag \<Rightarrow> bool) \<Rightarrow> string \<Rightarrow> string \<Rightarrow> string field \<Rightarrow> string \<Rightarrow> timestamp
     \<Rightarrow> db \<Rightarrow> response \<times> db" where
  "post_flag valid userId issueId rs newId now d =
     (case getUserFlaggedIssue issueId userId d of
        Some existingFlag \<Rightarrow> (Message 400 ''Issue already flagged by user'', d)
      | None \<Rightarrow>
          let flagData = \<lparr>issueId_insflag = issueId,
                          flaggerId_insflag = userId,
                          reason_insflag = rs\<rparr>
          in if \<not> valid flagData then (InvalidData 400, d)
             else (case flagIssue flagData newId now d of
                     (Inl e, d1) \<Rightarrow> (Message 500 ''Failed to flag issue'', d1)
                   | (Inr u, d1) \<Rightarrow> (Message 201 ''Issue flagged successfully'', d1)))"

definition post_vote ::
  "(InsertIssueVote \<Rightarrow> bool) \<Rightarrow> string \<Rightarrow> string \<Rightarrow> string \<Rightarrow> timestamp
     \<Rightarrow> db \<Rightarrow> response \<times> db" where
  "post_vote valid userId issueId newId now d =
     (case getUserVoteForIssue issueId userId d of
        Some existingVote \<Rightarrow> (Message 400 ''User already voted for this issue'', d)
      | None \<Rightarrow>
          let voteData = \<lparr>issueId_insvote = issueId, voterId_insvote = userId\<rparr>
          in if \<not> valid voteData then (InvalidData 400, d)
             else (case voteForIssue voteData newId now d of
                     (Inl e, d1) \<Rightarrow> (Message 500 ''Failed to record vote'', d1)
                   | (Inr u, d1) \<Rightarrow> (Message 201 ''Vote recorded successfully'', d1)))"

definition is_admin :: "string \<Rightarrow> db \<Rightarrow> bool" where
  "is_admin userId d =
     (case getUser userId d of None \<Rightarrow> False | Some u \<Rightarrow> isAdmin u = Some True)"


definition patch_hide :: "string \<Rightarrow> string \<Rightarrow> db \<Rightarrow> response \<times> db" where
  "patch_hide userId iid d =
     (if \<not> is_admin userId d then (Message 403 ''Admin access required'', d)
      else (Message 200 ''Issue hidden successfully'', hideIssue iid d))"

subsection \<open>Derived notions used in the statements\<close>


definition flagged_ok :: "response \<Rightarrow> bool" where
  "flagged_ok r = (r = Message 201 ''Issue flagged successfully'')"



text \<open>At most one flag, and at most one vote, for an issue and a user.\<close>

definition at_most_one_flag :: "db \<Rightarrow> bool" where
  "at_most_one_flag d = distinct (map (\<lambda>f. (issueId_flag f, flaggerId f)) (issueFlags d))"

definition at_most_one_vote :: "db \<Rightarrow> bool" where
  "at_most_one_vote d = distinct (map (\<lambda>v. (issueId_vote v, voterId v)) (issueVotes d))"





subsection \<open>Example stores\<close>

definition ex_user :: "string \<Rightarrow> bool \<Rightarrow> user" where
  "ex_user uid adm =
     \<lparr>id_user = uid, email = None, firstName = None, lastName = None,
      profileImageUrl = None, isAdmin = Some adm, isBanned = Some False,
      createdAt_user = Some 0, updatedAt_user = Some 0\<rparr>"

definition ex_issue :: "string \<Rightarrow> string \<Rightarrow> string \<Rightarrow> bool \<Rightarrow> int \<Rightarrow> timestamp \<Rightarrow> issue" where
  "ex_issue iid cat st hid flags t =
     \<lparr>id_issue = iid, title = ''t'', description = ''d'', category = cat,
      status = Some st, latitude = 0, longitude = 0, address = None, photos = None,
      reporterId = None, isAnonymous = Some False, isHidden = Some hid,
      flagCount = Some flags, reportCount = Some 1,
      createdAt = Some t, updatedAt = Some t\<rparr>"

definition ex_users :: "user list" where
  "ex_users = [ex_user ''a'' True, ex_user ''u1'' False, ex_user ''u2'' False,
               ex_user ''u3'' False, ex_user ''u4'' False, ex_user ''u5'' False]"

text \<open>One reported issue, no flags, no votes, no log rows.\<close>

definition ex_db :: db where
  "ex_db = \<lparr>users = ex_users,
            issues = [ex_issue ''i'' ''roads'' ''reported'' False 0 1],
            issueStatusLogs = [], issueFlags = [], issueVotes = []\<rparr>"

text \<open>Four flagged issues, one of them hidden, and one that was never flagged.\<close>

definition ex_db_flagged :: db where
  "ex_db_flagged =
     \<lparr>users = ex_users,
      issues = [ex_issue ''i1'' ''roads'' ''reported'' False 2 1,
                ex_issue ''i2'' ''water'' ''reported'' False 0 2,
                ex_issue ''i3'' ''roads'' ''resolved'' True 6 3,
                ex_issue ''i4'' ''safety'' ''reported'' False 1 4,
                ex_issue ''i5'' ''water'' ''in_progress'' False 4 5],
      issueStatusLogs = [], issueFlags = [], issueVotes = []\<rparr>"






definition accept_all :: "'a \<Rightarrow> bool" where
  "accept_all x = True"




section \<open>Properties\<close>

subsection \<open>Tables under an update\<close>

lemma update_issues_simps:
  "users (update_issues wh f d) = users d"
  "issueStatusLogs (update_issues wh f d) = issueStatusLogs d"
  "issueFlags (update_issues wh f d) = issueFlags d"
  "issueVotes (update_issues wh f d) = issueVotes d"
  "issues (update_issues wh f d) = map (\<lambda>i. if wh i then f i else i) (issues d)"
  by (simp_all add: update_issues_def)





lemma getUser_update_issues [simp]: "getUser u (update_issues wh f d) = getUser u d"
  by (simp add: getUser_def update_issues_simps)

lemma references_user_update_issues [simp]:
  "references_user v (update_issues wh f d) = references_user v d"
  by (cases v) (simp_all add: references_user_def)

lemma column_nullable [simp]: "column dflt (nullable v) = v"
  by (cases v) (simp_all add: nullable_def)

lemma column_optional [simp]: "column None (optional v) = v"
  by (cases v) (simp_all add: optional_def)

lemma at_least_iff: "at_least m v \<longleftrightarrow> (\<exists>n. v = Some n \<and> m \<le> n)"
  by (cases v) (auto simp: at_least_def)

subsection \<open>Descending order\<close>

lemma set_insert_desc: "set (insert_desc k x xs) = insert x (set xs)"
  by (induction xs) auto

lemma mset_insert_desc: "mset (insert_desc k x xs) = add_mset x (mset xs)"
  by (induction xs) auto

lemma mset_order_by_desc: "mset (order_by_desc k xs) = mset xs"
  by (induction xs) (auto simp: mset_insert_desc)

lemma set_order_by_desc: "set (order_by_desc k xs) = set xs"
  by (induction xs) (auto simp: set_insert_desc)

lemma desc_le_total: "\<not> desc_le a b \<Longrightarrow> desc_le b a"
  by (cases a; cases b) auto

lemma desc_le_trans: "desc_le a b \<Longrightarrow> desc_le b c \<Longrightarrow> desc_le a c"
  by (cases a; cases b; cases c) auto

lemma sorted_insert_desc:
  "sorted_wrt (\<lambda>a b. desc_le (k a) (k b)) xs \<Longrightarrow>
   sorted_wrt (\<lambda>a b. desc_le (k a) (k b)) (insert_desc k x xs)"
  by (induction xs) (auto simp: set_insert_desc dest: desc_le_total desc_le_trans)

lemma sorted_order_by_desc: "sorted_wrt (\<lambda>a b. desc_le (k a) (k b)) (order_by_desc k xs)"
  by (induction xs) (auto simp: sorted_insert_desc)

subsection \<open>Hiding an issue\<close>

text \<open>
  Claim C10.  \<open>hideIssue\<close> leaves the other tables alone, keeps every issue row in
  its place, changes no column of a row other than \<open>isHidden\<close> (so \<open>status\<close>,
  \<open>flagCount\<close>, \<open>reportCount\<close>, the coordinates and \<open>updatedAt\<close> stay), sets
  \<open>isHidden\<close> to true on the rows with the given id and on no other row, and
  hiding twice gives the same store as hiding once.
\<close>

theorem hideIssue_frame:
  "users (hideIssue x d) = users d \<and>
   issueStatusLogs (hideIssue x d) = issueStatusLogs d \<and>
   issueFlags (hideIssue x d) = issueFlags d \<and>
   issueVotes (hideIssue x d) = issueVotes d \<and>
   length (issues (hideIssue x d)) = length (issues d) \<and>
   (\<forall>k < length (issues d).
      (issues (hideIssue x d) ! k)\<lparr>isHidden := isHidden (issues d ! k)\<rparr> = issues d ! k \<and>
      isHidden (issues (hideIssue x d) ! k) =
        (if id_issue (issues d ! k) = x then Some True else isHidden (issues d ! k))) \<and>
   hideIssue x (hideIssue x d) = hideIssue x d"
  by (simp add: hideIssue_def update_issues_def)

theorem hideIssue_frame_witness:
  "(0::nat) < length (issues ex_db_flagged) \<and>
   isHidden (issues ex_db_flagged ! 0) = Some False \<and>
   isHidden (issues (hideIssue ''i1'' ex_db_flagged) ! 0) = Some True \<and>
   (issues (hideIssue ''i1'' ex_db_flagged) ! 0)\<lparr>isHidden := Some False\<rparr>
     = issues ex_db_flagged ! 0 \<and>
   issues (hideIssue ''i1'' ex_db_flagged) ! 1 = issues ex_db_flagged ! 1 \<and>
   hideIssue ''i1'' (hideIssue ''i1'' ex_db_flagged) = hideIssue ''i1'' ex_db_flagged"
  using hideIssue_frame [of "''i1''" ex_db_flagged]
  by (simp add: hideIssue_def update_issues_def ex_db_flagged_def ex_issue_def)

subsection \<open>Flagged issues\<close>

lemma sorted_wrt_flagged:
  assumes "sorted_wrt (\<lambda>a b. desc_le (flagCount a) (flagCount b)) xs"
    and "\<forall>i \<in> set xs. at_least 1 (flagCount i)"
  shows "sorted_wrt (\<lambda>a b. \<exists>m n. flagCount a = Some m \<and> flagCount b = Some n \<and> n \<le> m) xs"
proof (rule sorted_wrt_mono_rel [OF _ assms(1)])
  fix a b
  assume ab: "a \<in> set xs" "b \<in> set xs" and le: "desc_le (flagCount a) (flagCount b)"
  from ab assms(2) have "at_least 1 (flagCount a)" "at_least 1 (flagCount b)"
    by blast+
  then obtain m n where "flagCount a = Some m" "flagCount b = Some n"
    unfolding at_least_iff by blast
  with le show "\<exists>m n. flagCount a = Some m \<and> flagCount b = Some n \<and> n \<le> m"
    by simp
qed

text \<open>
  Claim C8.  \<open>getFlaggedIssues\<close> returns exactly the issue rows whose \<open>flagCount\<close>
  is at least 1, each as often as it is in the table, in descending order of
  \<open>flagCount\<close>; a hidden row with a flag is among them.
\<close>

theorem getFlaggedIssues_spec:
  "mset (getFlaggedIssues d) =
     filter_mset (\<lambda>i. \<exists>n. flagCount i = Some n \<and> 1 \<le> n) (mset (issues d)) \<and>
   sorted_wrt (\<lambda>a b. \<exists>m n. flagCount a = Some m \<and> flagCount b = Some n \<and> n \<le> m)
     (getFlaggedIssues d) \<and>
   (\<forall>i \<in> set (issues d). isHidden i = Some True \<and> at_least 1 (flagCount i)
        \<longrightarrow> i \<in> set (getFlaggedIssues d))"
proof (intro conjI)
  show "mset (getFlaggedIssues d) =
      filter_mset (\<lambda>i. \<exists>n. flagCount i = Some n \<and> 1 \<le> n) (mset (issues d))"
    by (simp add: getFlaggedIssues_def mset_order_by_desc at_least_iff)
  show "sorted_wrt (\<lambda>a b. \<exists>m n. flagCount a = Some m \<and> flagCount b = Some n \<and> n \<le> m)
     (getFlaggedIssues d)"
    unfolding getFlaggedIssues_def
    by (rule sorted_wrt_flagged) (simp_all add: sorted_order_by_desc set_order_by_desc)
  show "\<forall>i \<in> set (issues d). isHidden i = Some True \<and> at_least 1 (flagCount i)
        \<longrightarrow> i \<in> set (getFlaggedIssues d)"
    by (simp add: getFlaggedIssues_def set_order_by_desc)
qed

theorem getFlaggedIssues_spec_witness:
  "ex_issue ''i3'' ''roads'' ''resolved'' True 6 3 \<in> set (issues ex_db_flagged) \<and>
   isHidden (ex_issue ''i3'' ''roads'' ''resolved'' True 6 3) = Some True \<and>
   at_least 1 (flagCount (ex_issue ''i3'' ''roads'' ''resolved'' True 6 3)) \<and>
   ex_issue ''i3'' ''roads'' ''resolved'' True 6 3 \<in> set (getFlaggedIssues ex_db_flagged) \<and>
   map id_issue (getFlaggedIssues ex_db_flagged) = [''i3'', ''i5'', ''i1'', ''i4'']"
  using getFlaggedIssues_spec [of ex_db_flagged]
  by (simp add: getFlaggedIssues_def ex_db_flagged_def ex_issue_def at_least_def)

subsection \<open>Status changes and the status log\<close>

lemma varchar_fits [simp]: "length s \<le> n \<Longrightarrow> varchar n s = Some s"
  by (simp add: varchar_def)

lemma varchar_null_fits [simp]: "fits n v \<Longrightarrow> varchar_null n v = Some v"
  by (cases v) (simp_all add: varchar_null_def fits_def)

lemma varchar_length: "varchar n s = Some t \<Longrightarrow> length t \<le> n"
  by (auto simp: varchar_def split: if_splits)

lemma createStatusLog_Inr:
  "createStatusLog e newId now d = (Inr u, d') \<Longrightarrow>
     \<exists>old new. varchar_null 20 (column None (oldStatus_inslog e)) = Some old \<and>
       varchar 20 (newStatus_inslog e) = Some new \<and>
       d' = d\<lparr>issueStatusLogs := issueStatusLogs d @
            [\<lparr>id_log = newId, issueId_log = issueId_inslog e,
              oldStatus = old, newStatus = new,
              changedBy = column None (changedBy_inslog e),
              notes_log = column None (notes_inslog e),
              createdAt_log = Some now\<rparr>]\<rparr>"
  by (auto simp: createStatusLog_def Let_def split: if_splits option.splits)















subsection \<open>Votes\<close>

lemma incrementIssueReportCount_Inr:
  "incrementIssueReportCount x d = (Inr u, d') \<Longrightarrow>
     d' = update_issues (\<lambda>i. id_issue i = x)
            (\<lambda>i. i\<lparr>reportCount := map_option (\<lambda>n. n + 1) (reportCount i)\<rparr>) d"
  by (auto simp: incrementIssueReportCount_def split: if_splits)

lemma voteForIssue_Inr:
  assumes "voteForIssue vote newId now d = (Inr u, d')"
  shows "d' = update_issues (\<lambda>i. id_issue i = issueId_insvote vote)
            (\<lambda>i. i\<lparr>reportCount := map_option (\<lambda>n. n + 1) (reportCount i)\<rparr>)
            (d\<lparr>issueVotes := issueVotes d @
               [\<lparr>id_vote = newId, issueId_vote = issueId_insvote vote,
                 voterId = voterId_insvote vote, createdAt_vote = Some now\<rparr>]\<rparr>)"
  using assms
  by (auto simp: voteForIssue_def Let_def split: if_splits dest: incrementIssueReportCount_Inr)





subsection \<open>Flags and the hiding threshold\<close>

lemma incrementIssueFlagCount_issues:
  "incrementIssueFlagCount x d = (Inr u, d') \<Longrightarrow>
     issues d' = map (\<lambda>i. if id_issue i = x
        then (if at_least 5 (map_option (\<lambda>n. n + 1) (flagCount i))
              then i\<lparr>flagCount := map_option (\<lambda>n. n + 1) (flagCount i), isHidden := Some True\<rparr>
              else i\<lparr>flagCount := map_option (\<lambda>n. n + 1) (flagCount i)\<rparr>)
        else i) (issues d) \<and>
     users d' = users d \<and> issueStatusLogs d' = issueStatusLogs d \<and>
     issueFlags d' = issueFlags d \<and> issueVotes d' = issueVotes d"
  by (auto simp: incrementIssueFlagCount_def Let_def update_issues_simps split: if_splits)

lemma flagIssue_Inr:
  assumes "flagIssue flag newId now d = (Inr u, d')"
  shows "issues d' = map (\<lambda>i. if id_issue i = issueId_insflag flag
        then (if at_least 5 (map_option (\<lambda>n. n + 1) (flagCount i))
              then i\<lparr>flagCount := map_option (\<lambda>n. n + 1) (flagCount i), isHidden := Some True\<rparr>
              else i\<lparr>flagCount := map_option (\<lambda>n. n + 1) (flagCount i)\<rparr>)
        else i) (issues d)"
    and "\<exists>rs. issueFlags d' = issueFlags d @
           [\<lparr>id_flag = newId, issueId_flag = issueId_insflag flag,
             flaggerId = flaggerId_insflag flag, reason = rs, createdAt_flag = Some now\<rparr>]"
    and "users d' = users d" and "issueStatusLogs d' = issueStatusLogs d"
    and "issueVotes d' = issueVotes d"
proof -
  from assms obtain rs where "incrementIssueFlagCount (issueId_insflag flag)
      (d\<lparr>issueFlags := issueFlags d @
           [\<lparr>id_flag = newId, issueId_flag = issueId_insflag flag,
             flaggerId = flaggerId_insflag flag, reason = rs, createdAt_flag = Some now\<rparr>]\<rparr>)
      = (Inr u, d')"
    by (auto simp: flagIssue_def Let_def split: if_splits option.splits)
  from incrementIssueFlagCount_issues [OF this]
  show "issues d' = map (\<lambda>i. if id_issue i = issueId_insflag flag
        then (if at_least 5 (map_option (\<lambda>n. n + 1) (flagCount i))
              then i\<lparr>flagCount := map_option (\<lambda>n. n + 1) (flagCount i), isHidden := Some True\<rparr>
              else i\<lparr>flagCount := map_option (\<lambda>n. n + 1) (flagCount i)\<rparr>)
        else i) (issues d)"
    and "\<exists>rs. issueFlags d' = issueFlags d @
           [\<lparr>id_flag = newId, issueId_flag = issueId_insflag flag,
             flaggerId = flaggerId_insflag flag, reason = rs, createdAt_flag = Some now\<rparr>]"
    and "users d' = users d" and "issueStatusLogs d' = issueStatusLogs d"
    and "issueVotes d' = issueVotes d"
    by simp_all
qed



lemma post_flag_created:
  assumes "post_flag valid uid iid rs newId now d = (r, d')" and "flagged_ok r"
  shows "getUserFlaggedIssue iid uid d = None"
    and "flagIssue \<lparr>issueId_insflag = iid, flaggerId_insflag = uid, reason_insflag = rs\<rparr>
           newId now d = (Inr (), d')"
  using assms
  by (auto simp: post_flag_def flagged_ok_def Let_def
           split: option.splits if_splits prod.splits sum.splits)


lemma post_flag_created_flags:
  assumes "post_flag valid uid iid rs newId now d = (r, d')" and "flagged_ok r"
  shows "\<exists>stored. issueFlags d' = issueFlags d @
           [\<lparr>id_flag = newId, issueId_flag = iid, flaggerId = uid,
             reason = stored, createdAt_flag = Some now\<rparr>]"
  using flagIssue_Inr(2) [OF post_flag_created(2) [OF assms]] by simp

lemma post_flag_created_found:
  assumes "post_flag valid uid iid rs newId now d = (r, d')" and "flagged_ok r"
  shows "getUserFlaggedIssue iid uid d' \<noteq> None"
proof -
  from post_flag_created_flags [OF assms] obtain stored where
    f: "issueFlags d' = issueFlags d @
           [\<lparr>id_flag = newId, issueId_flag = iid, flaggerId = uid,
             reason = stored, createdAt_flag = Some now\<rparr>]"
    by blast
  let ?row = "\<lparr>id_flag = newId, issueId_flag = iid, flaggerId = uid,
               reason = stored, createdAt_flag = Some now\<rparr>"
  have "?row \<in> set (issueFlags d')" "issueId_flag ?row = iid \<and> flaggerId ?row = uid"
    by (simp_all add: f)
  then show ?thesis
    unfolding getUserFlaggedIssue_def find_None_iff by blast
qed






















lemma createIssue_Inr:
  assumes "createIssue ins newId now d = (Inr i, d')"
  shows "id_issue i = newId \<and> flagCount i = Some 0 \<and> reportCount i = Some 1 \<and>
         isHidden i = Some False \<and>
         varchar_null 20 (column (Some ''reported'') (status_ins ins)) = Some (status i) \<and>
         d' = d\<lparr>issues := issues d @ [i]\<rparr>"
  using assms
  by (auto simp: createIssue_def Let_def split: if_splits option.splits)












lemmas ex_defs = ex_db_def ex_users_def ex_user_def ex_issue_def

lemmas flag_defs = post_flag_def flagIssue_def incrementIssueFlagCount_def
  getUserFlaggedIssue_def getIssue_def getUser_def overflows_def pg_int4_def at_least_def
  varchar_def varchar_null_def update_issues_def flagged_ok_def accept_all_def





subsection \<open>One flag and one vote for an issue and a user\<close>

lemma post_vote_created:
  assumes "post_vote valid uid iid newId now d = (Message 201 m, d')"
  shows "getUserVoteForIssue iid uid d = None"
    and "voteForIssue \<lparr>issueId_insvote = iid, voterId_insvote = uid\<rparr> newId now d = (Inr (), d')"
  using assms
  by (auto simp: post_vote_def Let_def split: option.splits if_splits prod.splits sum.splits)

lemma post_vote_created_found:
  assumes "post_vote valid uid iid newId now d = (Message 201 m, d')"
  shows "getUserVoteForIssue iid uid d' \<noteq> None"
proof -
  let ?row = "\<lparr>id_vote = newId, issueId_vote = iid, voterId = uid, createdAt_vote = Some now\<rparr>"
  have "issueVotes d' = issueVotes d @ [?row]"
    by (subst voteForIssue_Inr [OF post_vote_created(2) [OF assms]])
       (simp add: update_issues_simps)
  then have "?row \<in> set (issueVotes d')" "issueId_vote ?row = iid \<and> voterId ?row = uid"
    by simp_all
  then show ?thesis
    unfolding getUserVoteForIssue_def find_None_iff by blast
qed

lemma post_flag_conflict:
  "getUserFlaggedIssue iid uid d \<noteq> None \<Longrightarrow>
   post_flag valid uid iid rs newId now d = (Message 400 ''Issue already flagged by user'', d)"
  by (auto simp: post_flag_def)

lemma post_vote_conflict:
  "getUserVoteForIssue iid uid d \<noteq> None \<Longrightarrow>
   post_vote valid uid iid newId now d = (Message 400 ''User already voted for this issue'', d)"
  by (auto simp: post_vote_def)

lemma post_flag_cases:
  "snd (post_flag valid uid iid rs newId now d) = d \<or>
   (getUserFlaggedIssue iid uid d = None \<and>
    (\<exists>e. flagIssue \<lparr>issueId_insflag = iid, flaggerId_insflag = uid, reason_insflag = rs\<rparr>
            newId now d = (e, snd (post_flag valid uid iid rs newId now d))))"
  by (auto simp: post_flag_def Let_def split: option.splits prod.splits sum.splits)

lemma post_vote_cases:
  "snd (post_vote valid uid iid newId now d) = d \<or>
   (getUserVoteForIssue iid uid d = None \<and>
    (\<exists>e. voteForIssue \<lparr>issueId_insvote = iid, voterId_insvote = uid\<rparr>
            newId now d = (e, snd (post_vote valid uid iid newId now d))))"
  by (auto simp: post_vote_def Let_def split: option.splits prod.splits sum.splits)

lemma incrementIssueFlagCount_tables:
  "issueFlags (snd (incrementIssueFlagCount x d)) = issueFlags d"
  "issueVotes (snd (incrementIssueFlagCount x d)) = issueVotes d"
  by (simp_all add: incrementIssueFlagCount_def Let_def update_issues_simps)

lemma incrementIssueReportCount_tables:
  "issueFlags (snd (incrementIssueReportCount x d)) = issueFlags d"
  "issueVotes (snd (incrementIssueReportCount x d)) = issueVotes d"
  by (simp_all add: incrementIssueReportCount_def update_issues_simps)

lemma flagIssue_tables:
  "issueVotes (snd (flagIssue flag newId now d)) = issueVotes d"
  "issueFlags (snd (flagIssue flag newId now d)) = issueFlags d \<or>
   (\<exists>rs. issueFlags (snd (flagIssue flag newId now d)) = issueFlags d @
     [\<lparr>id_flag = newId, issueId_flag = issueId_insflag flag,
       flaggerId = flaggerId_insflag flag, reason = rs, createdAt_flag = Some now\<rparr>])"
  by (simp_all add: flagIssue_def Let_def incrementIssueFlagCount_tables split: option.splits)

lemma voteForIssue_tables:
  "issueFlags (snd (voteForIssue vote newId now d)) = issueFlags d"
  "issueVotes (snd (voteForIssue vote newId now d)) = issueVotes d \<or>
   issueVotes (snd (voteForIssue vote newId now d)) = issueVotes d @
     [\<lparr>id_vote = newId, issueId_vote = issueId_insvote vote,
       voterId = voterId_insvote vote, createdAt_vote = Some now\<rparr>]"
  by (simp_all add: voteForIssue_def Let_def incrementIssueReportCount_tables)

lemma post_flag_keeps_unique:
  assumes "at_most_one_flag d \<and> at_most_one_vote d"
  shows "at_most_one_flag (snd (post_flag valid uid iid rs newId now d)) \<and>
         at_most_one_vote (snd (post_flag valid uid iid rs newId now d))"
proof -
  let ?d' = "snd (post_flag valid uid iid rs newId now d)"
  let ?flag = "\<lparr>issueId_insflag = iid, flaggerId_insflag = uid, reason_insflag = rs\<rparr>"
  from post_flag_cases [of valid uid iid rs newId now d] show ?thesis
  proof
    assume "?d' = d"
    with assms show ?thesis by simp
  next
    assume "getUserFlaggedIssue iid uid d = None \<and>
      (\<exists>e. flagIssue ?flag newId now d = (e, ?d'))"
    then obtain e where none: "getUserFlaggedIssue iid uid d = None"
      and f: "flagIssue ?flag newId now d = (e, ?d')"
      by blast
    from f have s: "snd (flagIssue ?flag newId now d) = ?d'"
      by simp
    from none have new: "(iid, uid) \<notin> set (map (\<lambda>f. (issueId_flag f, flaggerId f)) (issueFlags d))"
      by (auto simp: getUserFlaggedIssue_def find_None_iff)
    from flagIssue_tables [of ?flag newId now d] s
    have "issueVotes ?d' = issueVotes d"
      and "issueFlags ?d' = issueFlags d \<or> (\<exists>stored. issueFlags ?d' = issueFlags d @
        [\<lparr>id_flag = newId, issueId_flag = iid, flaggerId = uid,
          reason = stored, createdAt_flag = Some now\<rparr>])"
      by simp_all
    with assms new show ?thesis
      by (auto simp: at_most_one_flag_def at_most_one_vote_def)
  qed
qed

lemma post_vote_keeps_unique:
  assumes "at_most_one_flag d \<and> at_most_one_vote d"
  shows "at_most_one_flag (snd (post_vote valid uid iid newId now d)) \<and>
         at_most_one_vote (snd (post_vote valid uid iid newId now d))"
proof -
  let ?d' = "snd (post_vote valid uid iid newId now d)"
  let ?vote = "\<lparr>issueId_insvote = iid, voterId_insvote = uid\<rparr>"
  from post_vote_cases [of valid uid iid newId now d] show ?thesis
  proof
    assume "?d' = d"
    with assms show ?thesis by simp
  next
    assume "getUserVoteForIssue iid uid d = None \<and>
      (\<exists>e. voteForIssue ?vote newId now d = (e, ?d'))"
    then obtain e where none: "getUserVoteForIssue iid uid d = None"
      and f: "voteForIssue ?vote newId now d = (e, ?d')"
      by blast
    from f have s: "snd (voteForIssue ?vote newId now d) = ?d'"
      by simp
    from none have new: "(iid, uid) \<notin> set (map (\<lambda>v. (issueId_vote v, voterId v)) (issueVotes d))"
      by (auto simp: getUserVoteForIssue_def find_None_iff)
    from voteForIssue_tables [of ?vote newId now d] s
    have "issueFlags ?d' = issueFlags d"
      and "issueVotes ?d' = issueVotes d \<or> issueVotes ?d' = issueVotes d @
        [\<lparr>id_vote = newId, issueId_vote = iid, voterId = uid, createdAt_vote = Some now\<rparr>]"
      by simp_all
    with assms new show ?thesis
      by (auto simp: at_most_one_flag_def at_most_one_vote_def)
  qed
qed

text \<open>
  Claim C3.  After a flag request that was answered 201, a further flag request
  by the same user for the same issue is answered 400 (already flagged) and the
  store, with its flag rows and the issue's counters, is unchanged; the same holds
  for votes.  More generally a request for a pair that has a row is answered 400
  with the store unchanged, and the handlers keep the flag table and the vote
  table free of two rows for the same issue and user.
\<close>

theorem second_flag_or_vote_conflicts:
  "(post_flag valid uid iid rs newId now d = (Message 201 m, d1) \<longrightarrow>
      post_flag valid' uid iid rs' newId' now' d1
        = (Message 400 ''Issue already flagged by user'', d1)) \<and>
   (post_vote validv uid iid newId now d = (Message 201 m, d2) \<longrightarrow>
      post_vote validv' uid iid newId' now' d2
        = (Message 400 ''User already voted for this issue'', d2)) \<and>
   (getUserFlaggedIssue iid uid d \<noteq> None \<longrightarrow>
      post_flag valid uid iid rs newId now d
        = (Message 400 ''Issue already flagged by user'', d)) \<and>
   (getUserVoteForIssue iid uid d \<noteq> None \<longrightarrow>
      post_vote validv uid iid newId now d
        = (Message 400 ''User already voted for this issue'', d)) \<and>
   (at_most_one_flag d \<and> at_most_one_vote d \<longrightarrow>
      at_most_one_flag (snd (post_flag valid uid iid rs newId now d)) \<and>
      at_most_one_vote (snd (post_flag valid uid iid rs newId now d)) \<and>
      at_most_one_flag (snd (post_vote validv uid iid newId now d)) \<and>
      at_most_one_vote (snd (post_vote validv uid iid newId now d)))"
proof (intro conjI impI)
  assume a: "post_flag valid uid iid rs newId now d = (Message 201 m, d1)"
  then have "flagged_ok (Message 201 m)"
    by (auto simp: post_flag_def flagged_ok_def Let_def
             split: option.splits if_splits prod.splits sum.splits)
  from post_flag_created_found [OF a this]
  show "post_flag valid' uid iid rs' newId' now' d1
        = (Message 400 ''Issue already flagged by user'', d1)"
    by (rule post_flag_conflict)
next
  assume "post_vote validv uid iid newId now d = (Message 201 m, d2)"
  from post_vote_created_found [OF this]
  show "post_vote validv' uid iid newId' now' d2
        = (Message 400 ''User already voted for this issue'', d2)"
    by (rule post_vote_conflict)
next
  assume "getUserFlaggedIssue iid uid d \<noteq> None"
  then show "post_flag valid uid iid rs newId now d
        = (Message 400 ''Issue already flagged by user'', d)"
    by (rule post_flag_conflict)
next
  assume "getUserVoteForIssue iid uid d \<noteq> None"
  then show "post_vote validv uid iid newId now d
        = (Message 400 ''User already voted for this issue'', d)"
    by (rule post_vote_conflict)
next
  assume a: "at_most_one_flag d \<and> at_most_one_vote d"
  from post_flag_keeps_unique [OF a]
  show "at_most_one_flag (snd (post_flag valid uid iid rs newId now d))"
    and "at_most_one_vote (snd (post_flag valid uid iid rs newId now d))"
    by blast+
  from post_vote_keeps_unique [OF a]
  show "at_most_one_flag (snd (post_vote validv uid iid newId now d))"
    and "at_most_one_vote (snd (post_vote validv uid iid newId now d))"
    by blast+
qed

lemmas vote_defs = post_vote_def voteForIssue_def incrementIssueReportCount_def
  getUserVoteForIssue_def getIssue_def getUser_def overflows_def pg_int4_def
  update_issues_def accept_all_def

lemma ex_first_flag:
  "post_flag accept_all ''u1'' ''i'' Absent ''f1'' 2 ex_db
     = (Message 201 ''Issue flagged successfully'',
        snd (post_flag accept_all ''u1'' ''i'' Absent ''f1'' 2 ex_db))"
  by (simp add: ex_defs flag_defs Let_def)

lemma ex_first_vote:
  "post_vote accept_all ''u1'' ''i'' ''v1'' 2 ex_db
     = (Message 201 ''Vote recorded successfully'',
        snd (post_vote accept_all ''u1'' ''i'' ''v1'' 2 ex_db))"
  by (simp add: ex_defs vote_defs Let_def)

theorem second_flag_or_vote_conflicts_witness:
  "fst (post_flag accept_all ''u1'' ''i'' Absent ''f1'' 2 ex_db)
     = Message 201 ''Issue flagged successfully'' \<and>
   post_flag accept_all ''u1'' ''i'' (Given ''again'') ''f2'' 3
       (snd (post_flag accept_all ''u1'' ''i'' Absent ''f1'' 2 ex_db))
     = (Message 400 ''Issue already flagged by user'',
        snd (post_flag accept_all ''u1'' ''i'' Absent ''f1'' 2 ex_db)) \<and>
   fst (post_vote accept_all ''u1'' ''i'' ''v1'' 2 ex_db)
     = Message 201 ''Vote recorded successfully'' \<and>
   post_vote accept_all ''u1'' ''i'' ''v2'' 3
       (snd (post_vote accept_all ''u1'' ''i'' ''v1'' 2 ex_db))
     = (Message 400 ''User already voted for this issue'',
        snd (post_vote accept_all ''u1'' ''i'' ''v1'' 2 ex_db)) \<and>
   at_most_one_flag ex_db \<and> at_most_one_vote ex_db \<and>
   at_most_one_flag (snd (post_flag accept_all ''u1'' ''i'' Absent ''f1'' 2 ex_db)) \<and>
   at_most_one_vote (snd (post_vote accept_all ''u1'' ''i'' ''v1'' 2 ex_db))"
proof -
  have u: "at_most_one_flag ex_db \<and> at_most_one_vote ex_db"
    by (simp add: at_most_one_flag_def at_most_one_vote_def ex_db_def)
  from second_flag_or_vote_conflicts [where d = ex_db and uid = "''u1''" and iid = "''i''"
      and valid = accept_all and rs = Absent and newId = "''f1''" and now = 2
      and m = "''Issue flagged successfully''"
      and ?d1.0 = "snd (post_flag accept_all ''u1'' ''i'' Absent ''f1'' 2 ex_db)"
      and valid' = accept_all and rs' = "Given ''again''" and newId' = "''f2''" and now' = 3]
    ex_first_flag u
  have 1: "post_flag accept_all ''u1'' ''i'' (Given ''again'') ''f2'' 3
       (snd (post_flag accept_all ''u1'' ''i'' Absent ''f1'' 2 ex_db))
     = (Message 400 ''Issue already flagged by user'',
        snd (post_flag accept_all ''u1'' ''i'' Absent ''f1'' 2 ex_db))"
    and 2: "at_most_one_flag (snd (post_flag accept_all ''u1'' ''i'' Absent ''f1'' 2 ex_db))"
    by blast+
  from second_flag_or_vote_conflicts [where d = ex_db and uid = "''u1''" and iid = "''i''"
      and validv = accept_all and newId = "''v1''" and now = 2
      and m = "''Vote recorded successfully''"
      and ?d2.0 = "snd (post_vote accept_all ''u1'' ''i'' ''v1'' 2 ex_db)"
      and validv' = accept_all and newId' = "''v2''" and now' = 3]
    ex_first_vote u
  have 3: "post_vote accept_all ''u1'' ''i'' ''v2'' 3
       (snd (post_vote accept_all ''u1'' ''i'' ''v1'' 2 ex_db))
     = (Message 400 ''User already voted for this issue'',
        snd (post_vote accept_all ''u1'' ''i'' ''v1'' 2 ex_db))"
    and 4: "at_most_one_vote (snd (post_vote accept_all ''u1'' ''i'' ''v1'' 2 ex_db))"
    by blast+
  have 5: "fst (post_flag accept_all ''u1'' ''i'' Absent ''f1'' 2 ex_db)
     = Message 201 ''Issue flagged successfully''"
    by (subst ex_first_flag) simp
  have 6: "fst (post_vote accept_all ''u1'' ''i'' ''v1'' 2 ex_db)
     = Message 201 ''Vote recorded successfully''"
    by (subst ex_first_vote) simp
  from 1 2 3 4 5 6 u show ?thesis
    by blast
qed

subsection \<open>Analytics\<close>










subsection \<open>Proximity query\<close>


text \<open>
  The argument of the arc cosine is between -1 and 1, so over the reals the
  expression is defined at every pair of points.
\<close>

lemma law_of_cosines_arg_bounded:
  "\<bar>cos a * cos b * cos c + sin a * sin b\<bar> \<le> (1::real)"
proof -
  have 1: "\<bar>cos a * cos b * cos c\<bar> \<le> \<bar>cos a\<bar> * \<bar>cos b\<bar>"
    using abs_cos_le_one [of c] mult_left_le [of "\<bar>cos c\<bar>" "\<bar>cos a\<bar> * \<bar>cos b\<bar>"]
    by (simp add: abs_mult)
  have 2: "2 * (\<bar>cos a\<bar> * \<bar>cos b\<bar>) \<le> (cos a)\<^sup>2 + (cos b)\<^sup>2"
    using sum_squares_bound [of "\<bar>cos a\<bar>" "\<bar>cos b\<bar>"] by simp
  have 3: "2 * (\<bar>sin a\<bar> * \<bar>sin b\<bar>) \<le> (sin a)\<^sup>2 + (sin b)\<^sup>2"
    using sum_squares_bound [of "\<bar>sin a\<bar>" "\<bar>sin b\<bar>"] by simp
  have "(cos a)\<^sup>2 + (sin a)\<^sup>2 = 1" "(cos b)\<^sup>2 + (sin b)\<^sup>2 = 1"
    by simp_all
  with 2 3 have "\<bar>cos a\<bar> * \<bar>cos b\<bar> + \<bar>sin a\<bar> * \<bar>sin b\<bar> \<le> 1"
    by linarith
  moreover have "\<bar>cos a * cos b * cos c + sin a * sin b\<bar>
      \<le> \<bar>cos a * cos b * cos c\<bar> + \<bar>sin a\<bar> * \<bar>sin b\<bar>"
    using abs_triangle_ineq [of "cos a * cos b * cos c" "sin a * sin b"] by (simp add: abs_mult)
  ultimately show ?thesis
    using 1 by linarith
qed

lemma distanceQuery_range: "0 \<le> distanceQuery lat lon i \<and> distanceQuery lat lon i \<le> 6371 * pi"
proof -
  let ?x = "cos (radians lat) * cos (radians (latitude i)) *
        cos (radians (longitude i) - radians lon) +
        sin (radians lat) * sin (radians (latitude i))"
  have "- 1 \<le> ?x \<and> ?x \<le> 1"
    using law_of_cosines_arg_bounded
      [of "radians lat" "radians (latitude i)" "radians (longitude i) - radians lon"]
    by (simp add: abs_le_iff)
  then have "0 \<le> arccos ?x \<and> arccos ?x \<le> pi"
    by (simp add: arccos_lbound arccos_ubound)
  then show ?thesis
    by (simp add: distanceQuery_def)
qed



lemma ex_issue_columns [simp]:
  "createdAt (ex_issue iid c s h f t) = Some t"
  "isHidden (ex_issue iid c s h f t) = Some h"
  "category (ex_issue iid c s h f t) = c"
  "status (ex_issue iid c s h f t) = Some s"
  "createdAt ((ex_issue iid c s h f t)\<lparr>longitude := x\<rparr>) = Some t"
  by (simp_all add: ex_issue_def)









subsection \<open>Creating an issue\<close>

text \<open>
  What the handler of \<open>POST /api/issues\<close> does on a request it answers with 201:
  the issue is appended with no flags, report count 1 and visible, and one log
  row from \<open>NULL\<close> to \<open>reported\<close> is appended.  The status of the issue is
  \<open>reported\<close> only when the request carries no \<open>status\<close>; otherwise it is the
  stored form of the status of the request.
\<close>

lemma post_issues_created:
  assumes "post_issues valid userId r newId now logId logNow d = (IssueJson 201 i, d')"
  shows "flagCount i = Some 0 \<and> reportCount i = Some 1 \<and> isHidden i = Some False \<and>
         status i = (case status_req r of None \<Rightarrow> Some ''reported'' | Some s \<Rightarrow> varchar 20 s) \<and>
         issues d' = issues d @ [i] \<and>
         issueStatusLogs d' = issueStatusLogs d @
           [\<lparr>id_log = logId, issueId_log = id_issue i, oldStatus = None,
             newStatus = ''reported'', changedBy = Some userId,
             notes_log = Some ''Issue reported'', createdAt_log = Some logNow\<rparr>]"
proof -
  from assms obtain issueData d1 u where
    p: "insertIssueSchema_parse valid userId r = Some issueData"
    and c: "createIssue issueData newId now d = (Inr i, d1)"
    and l: "createStatusLog
              \<lparr>issueId_inslog = id_issue i, oldStatus_inslog = Null,
               newStatus_inslog = ''reported'', changedBy_inslog = Given userId,
               notes_inslog = Given ''Issue reported''\<rparr> logId logNow d1 = (Inr u, d')"
    by (auto simp: post_issues_def split: if_splits option.splits prod.splits sum.splits)
  from p have st: "status_ins issueData = optional (status_req r)"
    by (auto simp: insertIssueSchema_parse_def Let_def split: option.splits if_splits)
  note ci = createIssue_Inr [OF c]
  from ci st have "status i
      = (case status_req r of None \<Rightarrow> Some ''reported'' | Some s \<Rightarrow> varchar 20 s)"
    by (cases "status_req r") (auto simp: optional_def varchar_null_def)
  with createStatusLog_Inr [OF l] ci show ?thesis
    by (auto simp: varchar_null_def)
qed



end
